theory Spec2Isabelle
  imports Complex_Main "HOL-Library.Sublist"
begin

section \<open>The model importer \<open>scripts/import_models.py\<close>\<close>

text \<open>
  A shallow embedding of the importer: the keyword table and the folder classifier, the
  parsed manifest as a Python value, the file system and the network as explicit state,
  the download with its retry loop, and \<open>main\<close>.

  Strings are lists of 8-bit characters read as the code points 0 to 255; a name with a
  code point beyond that range is outside the model.
\<close>

subsection \<open>Strings: \<open>str.lower\<close> and the operator \<open>in\<close>\<close>

text \<open>
  \<open>str.lower\<close> on the code points below 256 maps \<open>A\<close> to \<open>Z\<close> and the
  Latin-1 capitals 192 to 222 (the multiplication sign 215 apart) to the code point 32
  above, and leaves every other code point alone.
\<close>

definition lower_char :: "char \<Rightarrow> char" where
  "lower_char c =
     (let n = (of_char c :: nat)
      in if (65 \<le> n \<and> n \<le> 90) \<or> (192 \<le> n \<and> n \<le> 222 \<and> n \<noteq> 215)
         then char_of (n + 32) else c)"

definition lower :: "string \<Rightarrow> string" where
  "lower s = map lower_char s"

text \<open>\<open>kw in name\<close> on strings: \<open>kw\<close> occurs in \<open>name\<close> as a contiguous block.\<close>

fun py_in :: "string \<Rightarrow> string \<Rightarrow> bool" where
  "py_in kw [] = (kw = [])"
| "py_in kw (c # cs) = (prefix kw (c # cs) \<or> py_in kw cs)"

subsection \<open>The destination layout table and the classifier\<close>

text \<open>
  \<open>DEFAULT_LAYOUT\<close> is a dict literal; a Python dict iterates in insertion order, so
  the table is the list of its items in the order of the literal.
\<close>

definition DEFAULT_LAYOUT :: "(string \<times> string list) list" where
  "DEFAULT_LAYOUT =
     [(''checkpoints'', [''ckpt'', ''safetensors'', ''pt'']),
      (''vae'', [''vae'']),
      (''diffusers'', [''diffusers'', ''diffuser'']),
      (''embeddings'', [''embeddings'', ''bin'']),
      (''clip'', [''clip'']),
      (''upscale_models'', [''upscale'', ''realesrgan''])]"

text \<open>The inner loop \<open>for kw in keywords: if kw in name: return folder\<close>.\<close>

fun any_keyword :: "string list \<Rightarrow> string \<Rightarrow> bool" where
  "any_keyword [] name = False"
| "any_keyword (kw # kws) name = (if py_in kw name then True else any_keyword kws name)"

text \<open>The outer loop over the items of the table; \<open>None\<close> when it runs to its end.\<close>

fun scan_layout :: "(string \<times> string list) list \<Rightarrow> string \<Rightarrow> string option" where
  "scan_layout [] name = None"
| "scan_layout ((folder, keywords) # rest) name =
     (if any_keyword keywords name then Some folder else scan_layout rest name)"

definition choose_folder_by_name :: "string \<Rightarrow> string" where
  "choose_folder_by_name filename =
     (let name = lower filename
      in case scan_layout DEFAULT_LAYOUT name of
           Some folder \<Rightarrow> folder
         | None \<Rightarrow> ''checkpoints'')"

subsection \<open>Parsed JSON as Python values\<close>

text \<open>
  What \<open>json.load\<close> returns: \<open>None\<close>, a bool, an int, a float, a str, a list or a
  dict. A dict is the list of its items in insertion order, with distinct keys. Only
  the zero test of a float matters to the importer.
\<close>

datatype pyval =
    PNone
  | PBool bool
  | PInt int
  | PFloat real
  | PStr string
  | PList "pyval list"
  | PDict "(string \<times> pyval) list"

text \<open>The exceptions that can escape; each name stands for the class with its subclasses.\<close>

datatype exc = AttributeError | TypeError | OSError | ValueError

text \<open>Truth value testing, as \<open>or\<close>, \<open>not\<close> and \<open>if\<close> apply it.\<close>

fun truthy :: "pyval \<Rightarrow> bool" where
  "truthy PNone = False"
| "truthy (PBool b) = b"
| "truthy (PInt i) = (i \<noteq> 0)"
| "truthy (PFloat x) = (x \<noteq> 0)"
| "truthy (PStr s) = (s \<noteq> [])"
| "truthy (PList xs) = (xs \<noteq> [])"
| "truthy (PDict kvs) = (kvs \<noteq> [])"

definition py_or :: "pyval \<Rightarrow> pyval \<Rightarrow> pyval" where
  "py_or a b = (if truthy a then a else b)"

text \<open>\<open>d.get(k)\<close> on a dict: the value, or \<open>None\<close> for a missing key.\<close>

definition dict_get :: "(string \<times> pyval) list \<Rightarrow> string \<Rightarrow> pyval" where
  "dict_get kvs k = (case map_of kvs k of Some v \<Rightarrow> v | None \<Rightarrow> PNone)"

subsection \<open>Paths\<close>

text \<open>
  A \<open>pathlib\<close> path on POSIX is the tuple of its parts: the root \<open>/\<close> (or \<open>//\<close>)
  first when the path is absolute, then the components, with empty components and
  \<open>.\<close> dropped and \<open>..\<close> kept.
\<close>

type_synonym path = "string list"

fun split_slash :: "string \<Rightarrow> string list" where
  "split_slash [] = [[]]"
| "split_slash (c # cs) =
     (if c = CHR ''/'' then [] # split_slash cs
      else (case split_slash cs of [] \<Rightarrow> [[c]] | x # xs \<Rightarrow> (c # x) # xs))"

definition path_root :: "string \<Rightarrow> string" where
  "path_root s =
     (if take 2 s = ''//'' \<and> take 3 s \<noteq> ''///'' then ''//''
      else if take 1 s = ''/'' then ''/'' else [])"

text \<open>\<open>pathlib.Path(s)\<close>.\<close>

definition Path :: "string \<Rightarrow> path" where
  "Path s =
     (if path_root s = [] then [] else [path_root s])
     @ filter (\<lambda>c. c \<noteq> [] \<and> c \<noteq> ''.'') (split_slash s)"

text \<open>\<open>p / s\<close> for a string \<open>s\<close>: an absolute \<open>s\<close> replaces \<open>p\<close>.\<close>

definition truediv :: "path \<Rightarrow> string \<Rightarrow> path" where
  "truediv p s = (if path_root s = [] then p @ Path s else Path s)"

definition anchored :: "path \<Rightarrow> bool" where
  "anchored p = (case p of [] \<Rightarrow> False | r # _ \<Rightarrow> r = ''/'' \<or> r = ''//'')"

text \<open>\<open>p.parent\<close>: the root and the empty path are their own parents.\<close>

definition parent :: "path \<Rightarrow> path" where
  "parent p = (if p = [] \<or> (anchored p \<and> tl p = []) then p else butlast p)"

fun join_slash :: "string list \<Rightarrow> string" where
  "join_slash [] = []"
| "join_slash [x] = x"
| "join_slash (x # y # ys) = x @ ''/'' @ join_slash (y # ys)"

text \<open>\<open>str(p)\<close>, the string handed to the operating system.\<close>

definition str_path :: "path \<Rightarrow> string" where
  "str_path p =
     (if p = [] then ''.''
      else if anchored p then hd p @ join_slash (tl p)
      else join_slash p)"

text \<open>\<open>os.path.basename(url.split("?")[0])\<close>.\<close>

definition url_basename :: "string \<Rightarrow> string" where
  "url_basename url =
     rev (takeWhile (\<lambda>c. c \<noteq> CHR ''/'') (rev (takeWhile (\<lambda>c. c \<noteq> CHR ''?'') url)))"

subsection \<open>The world: file system, network, standard output, clock\<close>

text \<open>
  The file system maps the path strings given to the operating system to what is there:
  a regular file with its bytes, or a directory. Two different strings name two
  different places: there are no symbolic links, and \<open>..\<close> is not resolved, so the
  map stands for the disk only while the strings in use do not name one place twice
  (see \<open>may_be_same_file\<close> below). The current directory and the root always exist.
\<close>

datatype node = File string | Dir

type_synonym filesystem = "string \<Rightarrow> node option"

definition node_at :: "filesystem \<Rightarrow> string \<Rightarrow> node option" where
  "node_at f s = (if s = ''.'' \<or> s = ''/'' \<or> s = ''//'' then Some Dir else f s)"

text \<open>
  The value of \<open>p.exists()\<close> when the \<open>stat\<close> behind it does not raise, or raises
  what \<open>exists\<close> swallows (nothing there, a file in the way); a path with a NUL character
  names nothing. What \<open>exists\<close> lets through is in \<open>dest_exists\<close> below.
\<close>

definition path_exists :: "filesystem \<Rightarrow> path \<Rightarrow> bool" where
  "path_exists f p =
     (let s = str_path p in CHR 0x00 \<notin> set s \<and> node_at f s \<noteq> None)"

text \<open>
  Every \<open>print\<close> of the script, with the values it formats. Writing to standard output
  is taken not to fail.
\<close>

datatype msg =
    Usage
  | Unrecognized
  | Found nat
  | SkippingNoUrl pyval
  | AlreadyExists path
  | Downloading pyval path
  | AttemptFailed int string
  | Downloaded path
  | FailedToDownload pyval
  | Finished nat

text \<open>
  \<open>requests\<close> counts the calls of \<open>urlopen\<close>, \<open>slept\<close> lists the arguments of
  \<open>time.sleep\<close>. \<open>seen\<close> is a history variable: every state the file system passes
  through, in order, so that a theorem can speak about what is visible in between.

  \<open>stat_raises\<close> and \<open>mkdir_raises\<close> are the standing refusals of the operating
  system, which the run does not change: the path strings on which \<open>stat\<close> raises an
  \<open>OSError\<close> other than "not found" and "not a directory" (a name that is too long, a
  directory that may not be searched), and those on which \<open>mkdir\<close> raises one (the same,
  a parent that may not be written, a full disk).
\<close>

record world =
  fs :: filesystem
  stat_raises :: "string \<Rightarrow> bool"
  mkdir_raises :: "string \<Rightarrow> bool"
  seen :: "filesystem list"
  requests :: nat
  stdout :: "msg list"
  slept :: "rat list"

definition print :: "msg \<Rightarrow> world \<Rightarrow> world" where
  "print m w = w\<lparr>stdout := stdout w @ [m]\<rparr>"

definition sleep :: "rat \<Rightarrow> world \<Rightarrow> world" where
  "sleep t w = w\<lparr>slept := slept w @ [t]\<rparr>"

definition write_fs :: "(filesystem \<Rightarrow> filesystem) \<Rightarrow> world \<Rightarrow> world" where
  "write_fs g w = w\<lparr>fs := g (fs w), seen := seen w @ [g (fs w)]\<rparr>"

text \<open>
  \<open>dest.exists()\<close> (Python 3.11): \<open>stat\<close> is called, and an \<open>OSError\<close> whose errno
  is not one of \<open>ENOENT\<close>, \<open>ENOTDIR\<close>, \<open>EBADF\<close>, \<open>ELOOP\<close> is raised again.
\<close>

definition dest_exists :: "world \<Rightarrow> path \<Rightarrow> exc + bool" where
  "dest_exists w p =
     (if stat_raises w (str_path p) then Inl OSError else Inr (path_exists (fs w) p))"

text \<open>
  What one pass through the \<open>try\<close> block of \<open>download_file\<close> meets is the choice of
  the environment: \<open>urlopen\<close> raises; or the response opens and \<open>open(tmp, "wb")\<close>
  raises; or the copy raises after some bytes reached the temporary file; or the whole
  body is copied and \<open>os.replace\<close> raises; or everything succeeds. The network gives
  the outcome of the \<open>k\<close>-th call of \<open>urlopen\<close>, made for a given URL.
\<close>

datatype attempt =
    UrlopenRaises string
  | OpenRaises string
  | CopyRaises string string
  | ReplaceRaises string string
  | Completes string

type_synonym network = "nat \<Rightarrow> pyval \<Rightarrow> attempt"

subsection \<open>\<open>ensure_dir\<close>\<close>

text \<open>
  \<open>os.makedirs(p, exist_ok=True)\<close>, on a file system in which every ancestor of an
  existing node is a directory, comes to a walk over the ancestors of \<open>p\<close> from the
  top and then \<open>p\<close> itself: a directory is left alone, a missing one is created. A path
  with a NUL character raises \<open>ValueError\<close> when its turn comes (the directories above
  it have been created by then). A regular file in the way raises when \<open>mkdir\<close> is
  tried on it or below it: \<open>FileExistsError\<close> or \<open>NotADirectoryError\<close>, both
  \<open>OSError\<close>, or \<open>ValueError\<close> if the path tried below it has a NUL character. Where
  the operating system refuses \<open>mkdir\<close>, the \<open>OSError\<close> is raised unless a directory is
  found there.
\<close>

fun mkdirs :: "path list \<Rightarrow> world \<Rightarrow> exc option \<times> world" where
  "mkdirs [] w = (None, w)"
| "mkdirs (q # qs) w =
     (if CHR 0x00 \<in> set (str_path q) then (Some ValueError, w)
      else
        (case node_at (fs w) (str_path q) of
           Some Dir \<Rightarrow> mkdirs qs w
         | Some (File _) \<Rightarrow>
             (case qs of
                [] \<Rightarrow> (Some OSError, w)
              | q' # _ \<Rightarrow>
                  (if CHR 0x00 \<in> set (str_path q') then Some ValueError else Some OSError, w))
         | None \<Rightarrow>
             (if mkdir_raises w (str_path q) then (Some OSError, w)
              else mkdirs qs (write_fs (\<lambda>f. f(str_path q \<mapsto> Dir)) w))))"

definition ancestors_and_self :: "path \<Rightarrow> path list" where
  "ancestors_and_self p = map (\<lambda>n. take n p) [1..<Suc (length p)]"

definition ensure_dir :: "path \<Rightarrow> world \<Rightarrow> exc option \<times> world" where
  "ensure_dir p w = mkdirs (ancestors_and_self p) w"

subsection \<open>\<open>download_file\<close>\<close>

text \<open>
  The \<open>try\<close> block: \<open>urlopen\<close>, \<open>open(tmp, "wb")\<close> (which truncates), the copy, and
  \<open>os.replace(tmp, dest)\<close>. The result is the message of the exception caught, if any.
\<close>

definition attempt_once ::
  "network \<Rightarrow> pyval \<Rightarrow> string \<Rightarrow> string \<Rightarrow> world \<Rightarrow> string option \<times> world" where
  "attempt_once net url tmp dest w =
     (let w0 = w\<lparr>requests := Suc (requests w)\<rparr>
      in case net (requests w) url of
           UrlopenRaises e \<Rightarrow> (Some e, w0)
         | OpenRaises e \<Rightarrow> (Some e, w0)
         | CopyRaises part e \<Rightarrow>
             (Some e, write_fs (\<lambda>f. f(tmp \<mapsto> File part))
                        (write_fs (\<lambda>f. f(tmp \<mapsto> File [])) w0))
         | ReplaceRaises body e \<Rightarrow>
             (Some e, write_fs (\<lambda>f. f(tmp \<mapsto> File body))
                        (write_fs (\<lambda>f. f(tmp \<mapsto> File [])) w0))
         | Completes body \<Rightarrow>
             (None, write_fs (\<lambda>f. (f(dest := f tmp))(tmp := None))
                      (write_fs (\<lambda>f. f(tmp \<mapsto> File body))
                        (write_fs (\<lambda>f. f(tmp \<mapsto> File [])) w0))))"

text \<open>The loop \<open>for attempt in range(1, retries + 1)\<close>, over the list of its values.\<close>

fun download_loop ::
  "network \<Rightarrow> pyval \<Rightarrow> string \<Rightarrow> string \<Rightarrow> rat \<Rightarrow> int list \<Rightarrow> world \<Rightarrow> bool \<times> world" where
  "download_loop net url tmp dest backoff [] w = (False, w)"
| "download_loop net url tmp dest backoff (attempt # rest) w =
     (case attempt_once net url tmp dest w of
        (None, w1) \<Rightarrow> (True, w1)
      | (Some e, w1) \<Rightarrow>
          download_loop net url tmp dest backoff rest
            (sleep (backoff * of_int attempt) (print (AttemptFailed attempt e) w1)))"

definition download_file ::
  "network \<Rightarrow> pyval \<Rightarrow> path \<Rightarrow> int \<Rightarrow> rat \<Rightarrow> world \<Rightarrow> bool \<times> world" where
  "download_file net url dest retries backoff w =
     (let tmp = str_path dest @ ''.tmp''
      in download_loop net url tmp (str_path dest) backoff [1..retries] w)"


subsection \<open>\<open>main\<close>\<close>

text \<open>
  The dispatch on the shape of the parsed manifest; \<open>None\<close> is the branch that prints
  the complaint and leaves with \<open>sys.exit(1)\<close>.
\<close>

definition load_entries :: "pyval \<Rightarrow> pyval list option" where
  "load_entries data =
     (case data of
        PDict kvs \<Rightarrow>
          (case map_of kvs ''models'' of
             Some (PList ms) \<Rightarrow> Some ms
           | _ \<Rightarrow> Some (map snd kvs))
      | PList xs \<Rightarrow> Some xs
      | _ \<Rightarrow> None)"

text \<open>The three chains of \<open>entry.get(...) or ...\<close> on a dict entry.\<close>

definition entry_url :: "(string \<times> pyval) list \<Rightarrow> pyval" where
  "entry_url kvs =
     py_or (py_or (py_or (dict_get kvs ''download_url'') (dict_get kvs ''url''))
              (dict_get kvs ''file_url''))
       (dict_get kvs ''location'')"

definition entry_name :: "(string \<times> pyval) list \<Rightarrow> pyval" where
  "entry_name kvs = py_or (py_or (dict_get kvs ''name'') (dict_get kvs ''filename'')) PNone"

definition entry_rel_path :: "(string \<times> pyval) list \<Rightarrow> pyval" where
  "entry_rel_path kvs =
     py_or (py_or (dict_get kvs ''path'') (dict_get kvs ''relative_path'')) PNone"

text \<open>
  \<open>if not name: name = os.path.basename(url.split("?")[0])\<close>; only a str has
  \<open>split\<close>.
\<close>

definition default_name :: "pyval \<Rightarrow> pyval \<Rightarrow> exc + pyval" where
  "default_name url name =
     (if truthy name then Inr name
      else (case url of
              PStr u \<Rightarrow> Inr (PStr (url_basename u))
            | _ \<Rightarrow> Inl AttributeError))"

text \<open>
  The destination: the explicit relative path when it is truthy (only a str can follow
  \<open>/\<close>), else the folder chosen from the name (only a str has \<open>lower\<close>). Either way
  the directory that will hold the file is made first.
\<close>

definition decide_dest ::
  "string \<Rightarrow> pyval \<Rightarrow> pyval \<Rightarrow> world \<Rightarrow> (exc + path) \<times> world" where
  "decide_dest dest_root name rel_path w =
     (if truthy rel_path then
        (case rel_path of
           PStr r \<Rightarrow>
             (let dest = truediv (Path dest_root) r
              in case ensure_dir (parent dest) w of
                   (Some e, w1) \<Rightarrow> (Inl e, w1)
                 | (None, w1) \<Rightarrow> (Inr dest, w1))
         | _ \<Rightarrow> (Inl TypeError, w))
      else
        (case name of
           PStr n \<Rightarrow>
             (let folder = choose_folder_by_name n;
                  dest_dir = truediv (Path dest_root) folder
              in case ensure_dir dest_dir w of
                   (Some e, w1) \<Rightarrow> (Inl e, w1)
                 | (None, w1) \<Rightarrow> (Inr (truediv dest_dir n), w1))
         | _ \<Rightarrow> (Inl AttributeError, w)))"

text \<open>
  From \<open>if dest.exists()\<close> to the end of the loop body, once \<open>exists\<close> has returned;
  the number is the counter \<open>downloaded\<close>. \<open>download_file\<close> is called with its
  defaults, 3 and 1.5.
\<close>

definition fetch ::
  "network \<Rightarrow> pyval \<Rightarrow> pyval \<Rightarrow> path \<Rightarrow> nat \<Rightarrow> world \<Rightarrow> nat \<times> world" where
  "fetch net url name dest downloaded w =
     (if path_exists (fs w) dest then (downloaded, print (AlreadyExists dest) w)
      else
        (case download_file net url dest 3 (3 / 2) (print (Downloading name dest) w) of
           (True, w1) \<Rightarrow> (downloaded + 1, print (Downloaded dest) w1)
         | (False, w1) \<Rightarrow> (downloaded, print (FailedToDownload url) w1)))"

text \<open>
  One pass through the body of \<open>for entry in entries\<close>. \<open>Inl\<close> is an exception that
  nothing catches; the world is the one it leaves behind. The call \<open>dest.exists()\<close>
  stands outside every \<open>try\<close>: what it raises ends the run; when it returns, \<open>fetch\<close>
  branches on its value.
\<close>

definition process_entry ::
  "network \<Rightarrow> string \<Rightarrow> pyval \<Rightarrow> nat \<Rightarrow> world \<Rightarrow> (exc + nat) \<times> world" where
  "process_entry net dest_root entry downloaded w =
     (case entry of
        PDict kvs \<Rightarrow>
          (let url = entry_url kvs;
               name = entry_name kvs;
               rel_path = entry_rel_path kvs
           in if \<not> truthy url then (Inr downloaded, print (SkippingNoUrl entry) w)
              else
                (case default_name url name of
                   Inl e \<Rightarrow> (Inl e, w)
                 | Inr name1 \<Rightarrow>
                     (case decide_dest dest_root name1 rel_path w of
                        (Inl e, w1) \<Rightarrow> (Inl e, w1)
                      | (Inr dest, w1) \<Rightarrow>
                          (case dest_exists w1 dest of
                             Inl e \<Rightarrow> (Inl e, w1)
                           | Inr found \<Rightarrow>
                               (case fetch net url name1 dest downloaded w1 of
                                  (d, w2) \<Rightarrow> (Inr d, w2))))))
      | _ \<Rightarrow> (Inl AttributeError, w))"

fun process_entries ::
  "network \<Rightarrow> string \<Rightarrow> pyval list \<Rightarrow> nat \<Rightarrow> world \<Rightarrow> (exc + nat) \<times> world" where
  "process_entries net dest_root [] downloaded w = (Inr downloaded, w)"
| "process_entries net dest_root (entry # rest) downloaded w =
     (case process_entry net dest_root entry downloaded w of
        (Inl e, w1) \<Rightarrow> (Inl e, w1)
      | (Inr d, w1) \<Rightarrow> process_entries net dest_root rest d w1)"

text \<open>
  How the process ends: \<open>sys.exit(n)\<close> or the normal end (\<open>Exit 0\<close>), or an uncaught
  exception, which the interpreter turns into the status 1.
\<close>

datatype ending = Exit nat | Uncaught exc

fun exit_status :: "ending \<Rightarrow> nat" where
  "exit_status (Exit n) = n"
| "exit_status (Uncaught e) = 1"

text \<open>
  \<open>main\<close>, from \<open>sys.argv\<close>. \<open>read_json\<close> stands for opening the snapshot and
  \<open>json.load\<close>: the parsed value, or the exception that the two raise.
\<close>

definition main ::
  "string list \<Rightarrow> (string \<Rightarrow> exc + pyval) \<Rightarrow> network \<Rightarrow> world \<Rightarrow> ending \<times> world" where
  "main argv read_json net w =
     (if length argv < 3 then (Exit 2, print Usage w)
      else
        (let snapshot_path = argv ! 1;
             dest_root = argv ! 2
         in case read_json snapshot_path of
              Inl e \<Rightarrow> (Uncaught e, w)
            | Inr data \<Rightarrow>
                (case load_entries data of
                   None \<Rightarrow> (Exit 1, print Unrecognized w)
                 | Some entries \<Rightarrow>
                     (case process_entries net dest_root entries 0
                             (print (Found (length entries)) w) of
                        (Inl e, w1) \<Rightarrow> (Uncaught e, w1)
                      | (Inr downloaded, w1) \<Rightarrow> (Exit 0, print (Finished downloaded) w1)))))"


subsection \<open>Notions used to state the properties\<close>

text \<open>The file system states reached after \<open>w\<close>, up to \<open>w'\<close>.\<close>

definition states_since :: "world \<Rightarrow> world \<Rightarrow> filesystem list" where
  "states_since w w' = drop (length (seen w)) (seen w')"

text \<open>The message of the exception an attempt ends in, if it ends in one.\<close>

fun failure_of :: "attempt \<Rightarrow> string option" where
  "failure_of (UrlopenRaises e) = Some e"
| "failure_of (OpenRaises e) = Some e"
| "failure_of (CopyRaises part e) = Some e"
| "failure_of (ReplaceRaises body e) = Some e"
| "failure_of (Completes body) = None"

text \<open>
  The attempts that fail before the first one that succeeds, each with its number and
  its message, when the first of them is the \<open>k\<close>-th request.
\<close>

fun failed_attempts :: "network \<Rightarrow> pyval \<Rightarrow> nat \<Rightarrow> int list \<Rightarrow> (int \<times> string) list" where
  "failed_attempts net url k [] = []"
| "failed_attempts net url k (a # atts) =
     (case failure_of (net k url) of
        None \<Rightarrow> []
      | Some e \<Rightarrow> (a, e) # failed_attempts net url (Suc k) atts)"

text \<open>
  What a sequence of attempts leaves at the temporary path that held \<open>t\<close>: the bytes
  written by the last attempt that opened it; nothing after a rename.
\<close>

fun left_in_tmp :: "node option \<Rightarrow> attempt list \<Rightarrow> node option" where
  "left_in_tmp t [] = t"
| "left_in_tmp t (UrlopenRaises e # rest) = left_in_tmp t rest"
| "left_in_tmp t (OpenRaises e # rest) = left_in_tmp t rest"
| "left_in_tmp t (CopyRaises part e # rest) = left_in_tmp (Some (File part)) rest"
| "left_in_tmp t (ReplaceRaises body e # rest) = left_in_tmp (Some (File body)) rest"
| "left_in_tmp t (Completes body # rest) = left_in_tmp None rest"

text \<open>
  A fresh run: nothing on disk but the current directory and the root, and an operating
  system that refuses nothing.
\<close>

definition empty_world :: world where
  "empty_world = \<lparr>fs = (\<lambda>_. None), stat_raises = (\<lambda>_. False), mkdir_raises = (\<lambda>_. False),
                   seen = [], requests = 0, stdout = [], slept = []\<rparr>"












text \<open>
  Following the words of the specification of URL resolution, not the code: the value of
  the first of the fields that is present with a value other than \<open>None\<close>.
\<close>

definition url_fields :: "string list" where
  "url_fields = [''download_url'', ''url'', ''file_url'', ''location'']"

fun spec_first_present :: "(string \<times> pyval) list \<Rightarrow> string list \<Rightarrow> pyval option" where
  "spec_first_present kvs [] = None"
| "spec_first_present kvs (k # ks) =
     (case map_of kvs k of
        None \<Rightarrow> spec_first_present kvs ks
      | Some v \<Rightarrow> if v = PNone then spec_first_present kvs ks else Some v)"

subsection \<open>Example scenarios\<close>

text \<open>
  One entry, \<open>{"url": "http://h/a.ckpt"}\<close>, bound for
  \<open>models/checkpoints/a.ckpt\<close>, against three networks: one that resets the first
  transfer midway and then delivers, one that answers 404 to everything, one that times
  out twice and resets the third transfer midway; a world in which the file is already
  there, and one in which an earlier run left a temporary file.
\<close>

definition net_reset_then_ok :: network where
  "net_reset_then_ok k url =
     (if k = 0 then CopyRaises ''par'' ''Connection reset'' else Completes ''whole'')"

definition net_not_found :: network where
  "net_not_found k url = UrlopenRaises ''HTTP Error 404''"

definition net_reset_at_last :: network where
  "net_reset_at_last k url =
     (if k = 2 then CopyRaises ''third'' ''Connection reset'' else UrlopenRaises ''timed out'')"

definition a_url :: pyval where
  "a_url = PStr ''http://h/a.ckpt''"

definition a_name :: pyval where
  "a_name = PStr ''a.ckpt''"

definition a_dest :: path where
  "a_dest = [''models'', ''checkpoints'', ''a.ckpt'']"

definition url_entry :: "(string \<times> pyval) list" where
  "url_entry = [(''url'', PStr ''http://h/a.ckpt'')]"

definition world_with_old_file :: world where
  "world_with_old_file =
     empty_world\<lparr>fs := (\<lambda>_. None)(''models'' \<mapsto> Dir, ''models/checkpoints'' \<mapsto> Dir,
       ''models/checkpoints/a.ckpt'' \<mapsto> File ''old'')\<rparr>"

definition world_with_stale_tmp :: world where
  "world_with_stale_tmp =
     empty_world\<lparr>fs := (\<lambda>_. None)(''models'' \<mapsto> Dir, ''models/checkpoints'' \<mapsto> Dir,
       ''models/checkpoints/a.ckpt.tmp'' \<mapsto> File ''stale'')\<rparr>"

text \<open>The world once \<open>main\<close> has made the folder for that entry.\<close>

definition world_ready :: world where
  "world_ready = snd (decide_dest ''models'' a_name PNone empty_world)"


text \<open>
  Further manifests: an entry without any URL field; an entry whose \<open>download_url\<close> is
  the empty string; a mapping that carries a metadata string beside its entry; an entry
  with a name that classifies as \<open>vae\<close> and an explicit path.
\<close>

definition argv_models :: "string list" where
  "argv_models = [''import_models.py'', ''snapshot.json'', ''models'']"

definition no_url_entry :: "(string \<times> pyval) list" where
  "no_url_entry = [(''name'', PStr ''orphan'')]"

definition empty_then_url :: "(string \<times> pyval) list" where
  "empty_then_url = [(''download_url'', PStr []), (''url'', PStr ''http://h/a.ckpt'')]"













section \<open>Properties\<close>

subsection \<open>Strings\<close>

lemma py_in_sublist: "py_in kw name \<longleftrightarrow> sublist kw name"
  by (induction name) (auto simp: sublist_Cons_right)

lemma py_in_iff: "py_in kw name \<longleftrightarrow> (\<exists>ps ss. name = ps @ kw @ ss)"
  by (simp add: py_in_sublist sublist_def)

lemma any_keyword_iff: "any_keyword kws name \<longleftrightarrow> (\<exists>kw \<in> set kws. py_in kw name)"
  by (induction kws) auto

lemma scan_layout_find:
  "scan_layout tbl name =
     map_option fst (find (\<lambda>(folder, kws). \<exists>kw \<in> set kws. py_in kw name) tbl)"
  by (induction tbl) (auto simp: any_keyword_iff)

subsection \<open>The world and the download loop\<close>

lemma print_fields [simp]:
  "fs (print m w) = fs w" "seen (print m w) = seen w" "requests (print m w) = requests w"
  "stdout (print m w) = stdout w @ [m]" "slept (print m w) = slept w"
  "stat_raises (print m w) = stat_raises w" "mkdir_raises (print m w) = mkdir_raises w"
  by (simp_all add: print_def)

lemma sleep_fields [simp]:
  "fs (sleep t w) = fs w" "seen (sleep t w) = seen w" "requests (sleep t w) = requests w"
  "stdout (sleep t w) = stdout w" "slept (sleep t w) = slept w @ [t]"
  "stat_raises (sleep t w) = stat_raises w" "mkdir_raises (sleep t w) = mkdir_raises w"
  by (simp_all add: sleep_def)

lemma write_fs_fields [simp]:
  "fs (write_fs g w) = g (fs w)" "seen (write_fs g w) = seen w @ [g (fs w)]"
  "requests (write_fs g w) = requests w" "stdout (write_fs g w) = stdout w"
  "slept (write_fs g w) = slept w"
  "stat_raises (write_fs g w) = stat_raises w" "mkdir_raises (write_fs g w) = mkdir_raises w"
  by (simp_all add: write_fs_def)


lemma attempt_once_cases:
  assumes "attempt_once net url tmp dest w = (r, w1)"
  shows "requests w1 = Suc (requests w) \<and> stdout w1 = stdout w \<and> slept w1 = slept w
     \<and> (case net (requests w) url of
           UrlopenRaises e \<Rightarrow> r = Some e \<and> seen w1 = seen w \<and> fs w1 = fs w
         | OpenRaises e \<Rightarrow> r = Some e \<and> seen w1 = seen w \<and> fs w1 = fs w
         | CopyRaises part e \<Rightarrow> r = Some e
             \<and> seen w1 = seen w @ [(fs w)(tmp \<mapsto> File []), (fs w)(tmp \<mapsto> File part)]
             \<and> fs w1 = (fs w)(tmp \<mapsto> File part)
         | ReplaceRaises body e \<Rightarrow> r = Some e
             \<and> seen w1 = seen w @ [(fs w)(tmp \<mapsto> File []), (fs w)(tmp \<mapsto> File body)]
             \<and> fs w1 = (fs w)(tmp \<mapsto> File body)
         | Completes body \<Rightarrow> r = None
             \<and> seen w1 = seen w @ [(fs w)(tmp \<mapsto> File []), (fs w)(tmp \<mapsto> File body),
                                   (fs w)(dest \<mapsto> File body, tmp := None)]
             \<and> fs w1 = (fs w)(dest \<mapsto> File body, tmp := None))"
  using assms by (auto simp: attempt_once_def Let_def fun_eq_iff split: attempt.splits)

lemma attempt_once_failed:
  assumes "attempt_once net url tmp dest w = (Some e, w1)" "tmp \<noteq> dest"
  shows "seen w1 = seen w @ states_since w w1 \<and> fs w1 = last (fs w # states_since w w1)
     \<and> (\<forall>s \<in> set (states_since w w1). \<forall>p. p \<noteq> tmp \<longrightarrow> s p = fs w p)
     \<and> (\<forall>p. p \<noteq> tmp \<longrightarrow> fs w1 p = fs w p)
     \<and> requests w1 = Suc (requests w)"
  using attempt_once_cases [OF assms(1)] assms(2)
  by (cases "net (requests w) url") (auto simp: states_since_def)

lemma attempt_once_completed:
  assumes "attempt_once net url tmp dest w = (None, w1)" "tmp \<noteq> dest"
  shows "\<exists>body. net (requests w) url = Completes body
     \<and> seen w1 = seen w @ states_since w w1 \<and> fs w1 = last (fs w # states_since w w1)
     \<and> (\<forall>s \<in> set (states_since w w1). (\<forall>p. p \<noteq> tmp \<longrightarrow> p \<noteq> dest \<longrightarrow> s p = fs w p)
            \<and> (s dest = fs w dest \<or> s = fs w1))
     \<and> fs w1 dest = Some (File body) \<and> fs w1 tmp = None
     \<and> requests w1 = Suc (requests w)"
  using attempt_once_cases [OF assms(1)] assms(2)
  by (cases "net (requests w) url") (auto simp: states_since_def)

lemma download_loop_states:
  assumes "tmp \<noteq> dest" "download_loop net url tmp dest b atts w = (ok, w')"
  shows "seen w' = seen w @ states_since w w' \<and> fs w' = last (fs w # states_since w w')
     \<and> (\<forall>s \<in> set (states_since w w'). (\<forall>p. p \<noteq> tmp \<longrightarrow> p \<noteq> dest \<longrightarrow> s p = fs w p)
           \<and> (s dest = fs w dest
               \<or> (ok \<and> s = fs w' \<and> (\<exists>body. net (requests w' - 1) url = Completes body
                         \<and> s dest = Some (File body)))))"
  using assms
proof (induction atts arbitrary: w)
  case Nil
  then show ?case by (simp add: states_since_def)
next
  case (Cons a atts)
  obtain r w1 where a1: "attempt_once net url tmp dest w = (r, w1)" by force
  show ?case
  proof (cases r)
    case None
    with a1 Cons.prems have eq: "ok" "w' = w1" by auto
    from attempt_once_completed [OF a1 [unfolded None] Cons.prems(1)] eq
    show ?thesis by auto
  next
    case (Some e)
    let ?w2 = "sleep (b * of_int a) (print (AttemptFailed a e) w1)"
    from a1 Some Cons.prems have rec: "download_loop net url tmp dest b atts ?w2 = (ok, w')" by simp
    note ih = Cons.IH [OF Cons.prems(1) rec]
    note f = attempt_once_failed [OF a1 [unfolded Some] Cons.prems(1)]
    have w2: "seen ?w2 = seen w1" "fs ?w2 = fs w1" by simp_all
    have split: "states_since w w' = states_since w w1 @ states_since w1 w'"
      using ih f by (metis w2(1) append.assoc append_eq_conv_conj states_since_def)
    have s2: "states_since ?w2 w' = states_since w1 w'" by (simp add: states_since_def)
    show ?thesis
      using ih f Cons.prems(1) unfolding split s2 w2
      by (auto simp: last_append)
  qed
qed


lemma attempt_once_result:
  assumes "attempt_once net url tmp dest w = (r, w1)"
  shows "r = failure_of (net (requests w) url)"
  using attempt_once_cases [OF assms] by (cases "net (requests w) url") auto

lemma attempt_once_counters:
  assumes "attempt_once net url tmp dest w = (r, w1)"
  shows "requests w1 = Suc (requests w)" "stdout w1 = stdout w" "slept w1 = slept w"
  using attempt_once_cases [OF assms] by simp_all

lemma download_loop_log:
  assumes "download_loop net url tmp dest b atts w = (ok, w')"
  shows "stdout w' = stdout w @ map (\<lambda>(a, e). AttemptFailed a e) (failed_attempts net url (requests w) atts)
     \<and> slept w' = slept w @ map (\<lambda>(a, e). b * of_int a) (failed_attempts net url (requests w) atts)
     \<and> ok = (length (failed_attempts net url (requests w) atts) < length atts)
     \<and> requests w' = requests w + length (failed_attempts net url (requests w) atts) + (if ok then 1 else 0)"
  using assms
proof (induction atts arbitrary: w)
  case Nil
  then show ?case by auto
next
  case (Cons a atts)
  obtain r w1 where a1: "attempt_once net url tmp dest w = (r, w1)" by force
  note c = attempt_once_counters [OF a1]
  show ?case
  proof (cases r)
    case None
    with a1 Cons.prems have "ok" "w' = w1" by auto
    moreover have "failure_of (net (requests w) url) = None"
      using attempt_once_result [OF a1] None by simp
    ultimately show ?thesis using c by simp
  next
    case (Some e)
    let ?w2 = "sleep (b * of_int a) (print (AttemptFailed a e) w1)"
    from a1 Some Cons.prems have rec: "download_loop net url tmp dest b atts ?w2 = (ok, w')" by simp
    have fo: "failure_of (net (requests w) url) = Some e"
      using attempt_once_result [OF a1] Some by simp
    from Cons.IH [OF rec] show ?thesis by (simp add: fo c)
  qed
qed

lemma download_loop_tmp:
  assumes "tmp \<noteq> dest" "download_loop net url tmp dest b atts w = (False, w')"
  shows "fs w' = (fs w)(tmp := left_in_tmp (fs w tmp)
                    (map (\<lambda>i. net (requests w + i) url) [0..<length atts]))"
  using assms
proof (induction atts arbitrary: w)
  case Nil
  then show ?case by auto
next
  case (Cons a atts)
  obtain r w1 where a1: "attempt_once net url tmp dest w = (r, w1)" by force
  note c = attempt_once_cases [OF a1]
  show ?case
  proof (cases r)
    case None
    with a1 Cons.prems show ?thesis by auto
  next
    case (Some e)
    let ?w2 = "sleep (b * of_int a) (print (AttemptFailed a e) w1)"
    from a1 Some Cons.prems have rec: "download_loop net url tmp dest b atts ?w2 = (False, w')" by simp
    have idx: "map (\<lambda>i. net (requests w + i) url) [0..<length (a # atts)]
       = net (requests w) url # map (\<lambda>i. net (requests ?w2 + i) url) [0..<length atts]"
      using c by (simp add: upt_rec [of 0] map_Suc_upt [symmetric] del: upt_Suc)
    from Cons.IH [OF Cons.prems(1) rec] c Some show ?thesis
      unfolding idx by (cases "net (requests w) url") (auto)
  qed
qed

lemma tmp_neq: "str_path dest @ ''.tmp'' \<noteq> str_path dest"
  by simp

lemma states_since_trans:
  assumes "seen w1 = seen w @ xs" "seen w2 = seen w1" "seen w' = seen w2 @ ys"
  shows "states_since w w' = states_since w w1 @ states_since w2 w'"
  using assms by (simp add: states_since_def)

lemma download_loop_rename:
  assumes "tmp \<noteq> dest" "download_loop net url tmp dest b atts w = (True, w')"
  shows "\<exists>body pre s1. net (requests w' - 1) url = Completes body
     \<and> states_since w w' = pre @ [s1, fs w']
     \<and> s1 tmp = Some (File body) \<and> s1 dest = fs w dest
     \<and> fs w' = (s1(dest := s1 tmp))(tmp := None)"
  using assms
proof (induction atts arbitrary: w)
  case Nil
  then show ?case by simp
next
  case (Cons a atts)
  obtain r w1 where a1: "attempt_once net url tmp dest w = (r, w1)" by force
  note c = attempt_once_cases [OF a1]
  show ?case
  proof (cases r)
    case None
    with a1 Cons.prems have eq: "w' = w1" by auto
    from c None obtain body where b: "net (requests w) url = Completes body"
      by (cases "net (requests w) url") auto
    let ?s1 = "(fs w)(tmp \<mapsto> File body)"
    have 1: "states_since w w' = [(fs w)(tmp \<mapsto> File [])] @ [?s1, fs w']"
      using c b eq by (simp add: states_since_def)
    have 2: "fs w' = (?s1(dest := ?s1 tmp))(tmp := None)"
      using c b eq by (simp add: fun_eq_iff)
    have 3: "net (requests w' - 1) url = Completes body" using c b eq by simp
    have 4: "?s1 tmp = Some (File body)" "?s1 dest = fs w dest"
      using Cons.prems(1) by simp_all
    show ?thesis
      by (rule exI [of _ body], rule exI [of _ "[(fs w)(tmp \<mapsto> File [])]"],
          rule exI [of _ ?s1], intro conjI)
         (fact 3, fact 1, fact 4(1), fact 4(2), fact 2)
  next
    case (Some e)
    let ?w2 = "sleep (b * of_int a) (print (AttemptFailed a e) w1)"
    from a1 Some Cons.prems have rec: "download_loop net url tmp dest b atts ?w2 = (True, w')" by simp
    from Cons.IH [OF Cons.prems(1) rec] obtain body pre s1 where ih:
      "net (requests w' - 1) url = Completes body" "states_since ?w2 w' = pre @ [s1, fs w']"
      "s1 tmp = Some (File body)" "s1 dest = fs ?w2 dest" "fs w' = (s1(dest := s1 tmp))(tmp := None)"
      by blast
    note f = attempt_once_failed [OF a1 [unfolded Some] Cons.prems(1)]
    note st = download_loop_states [OF Cons.prems(1) rec]
    have "states_since w w' = states_since w w1 @ states_since ?w2 w'"
      by (rule states_since_trans [OF conjunct1 [OF f] _ conjunct1 [OF st]]) simp
    then have "states_since w w' = (states_since w w1 @ pre) @ [s1, fs w']"
      using ih(2) by simp
    moreover have "s1 dest = fs w dest" using ih(4) f Cons.prems(1) by simp
    ultimately have 5: "states_since w w' = (states_since w w1 @ pre) @ [s1, fs w']"
      and 6: "s1 dest = fs w dest" by simp_all
    show ?thesis
      by (rule exI [of _ body], rule exI [of _ "states_since w w1 @ pre"],
          rule exI [of _ s1], intro conjI)
         (fact ih(1), fact 5, fact ih(3), fact 6, fact ih(5))
  qed
qed

lemma path_exists_cong:
  "f (str_path p) = g (str_path p) \<Longrightarrow> path_exists f p = path_exists g p"
  by (simp add: path_exists_def node_at_def Let_def)

lemma process_entries_step:
  assumes "truthy (entry_url kvs)"
    and "default_name (entry_url kvs) (entry_name kvs) = Inr name"
    and "decide_dest dest_root name (entry_rel_path kvs) w0 = (Inr dest, w)"
    and "dest_exists w dest = Inr found"
    and "fetch net (entry_url kvs) name dest d w = (d', w')"
  shows "process_entries net dest_root (PDict kvs # rest) d w0 = process_entries net dest_root rest d' w'"
  using assms by (simp add: process_entry_def)

lemma failed_attempts_all:
  "length (failed_attempts net url k atts) = length atts \<Longrightarrow> i < length atts
     \<Longrightarrow> failure_of (net (k + i) url) \<noteq> None"
proof (induction atts arbitrary: k i)
  case Nil
  then show ?case by simp
next
  case (Cons a atts)
  then obtain e where e: "failure_of (net k url) = Some e"
    by (cases "failure_of (net k url)") auto
  show ?case
  proof (cases i)
    case 0
    with e show ?thesis by simp
  next
    case (Suc j)
    with Cons.prems e have "length (failed_attempts net url (Suc k) atts) = length atts" "j < length atts"
      by simp_all
    from Cons.IH [OF this] Suc show ?thesis by simp
  qed
qed

lemma failed_attempts_three:
  assumes "failure_of (net k url) = Some e1" "failure_of (net (k + 1) url) = Some e2"
    "failure_of (net (k + 2) url) = Some e3"
  shows "failed_attempts net url k [1, 2, 3] = [(1, e1), (2, e2), (3, e3)]"
  using assms by (simp add: numeral_2_eq_2)

lemma failed_attempts_length:
  "length (failed_attempts net url k atts) \<le> length atts"
  by (induction atts arbitrary: k) (auto split: option.splits)

lemma upto_1_3: "[1..3] = [1, 2, (3::int)]"
  by (simp add: upto.simps)

lemma left_in_tmp_last_copy:
  "left_in_tmp t (outs @ [CopyRaises part e]) = Some (File part)"
  by (induction t outs rule: left_in_tmp.induct) simp_all

lemma left_in_tmp_unopened:
  "\<forall>x \<in> set outs. \<exists>e. x = UrlopenRaises e \<or> x = OpenRaises e \<Longrightarrow> left_in_tmp t outs = t"
  by (induction t outs rule: left_in_tmp.induct) auto

lemma left_in_tmp_kept:
  "\<forall>x \<in> set outs. failure_of x \<noteq> None \<Longrightarrow> t \<noteq> None \<Longrightarrow> left_in_tmp t outs \<noteq> None"
  by (induction t outs rule: left_in_tmp.induct) auto

lemma length_upto_1: "length [1..r] = nat r"
  by (simp add: length_upto)

subsection \<open>Directories, the log and the loop of \<open>main\<close>\<close>
















lemma entry_url_find:
  "entry_url kvs = (case find truthy (map (dict_get kvs) url_fields) of
                      Some v \<Rightarrow> v | None \<Rightarrow> dict_get kvs ''location'')"
  by (simp add: entry_url_def url_fields_def py_or_def)

lemma entry_url_truthy:
  "truthy (entry_url kvs) \<longleftrightarrow> (\<exists>k \<in> set url_fields. truthy (dict_get kvs k))"
  by (auto simp: entry_url_def url_fields_def py_or_def)

lemmas eval_defs = main_def load_entries_def process_entry_def dest_exists_def entry_url_def
  entry_name_def
  entry_rel_path_def dict_get_def py_or_def default_name_def decide_dest_def fetch_def
  download_file_def attempt_once_def ensure_dir_def ancestors_and_self_def
  path_exists_def node_at_def str_path_def anchored_def parent_def truediv_def Path_def
  path_root_def url_basename_def empty_world_def print_def sleep_def write_fs_def
  upto_1_3 Let_def

lemma choose_a_ckpt: "choose_folder_by_name ''a.ckpt'' = ''checkpoints''"
  by code_simp

lemma world_ready_fields:
  "fs world_ready = (\<lambda>_. None)(''models'' \<mapsto> Dir, ''models/checkpoints'' \<mapsto> Dir)"
  "requests world_ready = 0" "stdout world_ready = []" "slept world_ready = []"
  "stat_raises world_ready = (\<lambda>_. False)" "mkdir_raises world_ready = (\<lambda>_. False)"
  by (simp_all add: world_ready_def a_name_def choose_a_ckpt eval_defs)

lemma a_dest_str: "str_path a_dest = ''models/checkpoints/a.ckpt''"
  by (simp add: a_dest_def str_path_def anchored_def)

lemmas fetch_eval = fetch_def download_file_def attempt_once_def path_exists_def node_at_def
  print_def sleep_def write_fs_def upto_1_3 Let_def a_dest_str
























subsection \<open>Folder classification\<close>

text \<open>
  C1, as the claim states it, fails: a name whose lowercased form contains \<open>vae\<close> is
  not always sent to \<open>vae\<close>. The row \<open>checkpoints\<close> comes first in the table, and
  its keyword \<open>safetensors\<close> occurs in \<open>sdxl_vae.safetensors\<close>.
\<close>

theorem choose_folder_by_name_vae_counterexample:
  "py_in ''vae'' (lower ''sdxl_vae.safetensors'')
   \<and> choose_folder_by_name ''sdxl_vae.safetensors'' \<noteq> ''vae''"
  by code_simp

text \<open>
  C1, amended: a filename whose lowercased form contains \<open>vae\<close> and none of the
  keywords \<open>ckpt\<close>, \<open>safetensors\<close>, \<open>pt\<close> of the earlier row \<open>checkpoints\<close> is sent
  to \<open>vae\<close>; a filename whose lowercased form contains no keyword of the table is sent
  to \<open>checkpoints\<close>; and in general the folder is that of the first row of the table, in
  table order, one of whose keywords occurs in the lowercased name, \<open>checkpoints\<close> when
  there is no such row.
\<close>

theorem choose_folder_by_name_first_match:
  "(py_in ''vae'' (lower f) \<and> \<not> py_in ''ckpt'' (lower f)
      \<and> \<not> py_in ''safetensors'' (lower f) \<and> \<not> py_in ''pt'' (lower f)
      \<longrightarrow> choose_folder_by_name f = ''vae'')
   \<and> ((\<forall>(folder, kws) \<in> set DEFAULT_LAYOUT. \<forall>kw \<in> set kws. \<not> py_in kw (lower f))
        \<longrightarrow> choose_folder_by_name f = ''checkpoints'')
   \<and> choose_folder_by_name f =
       (case find (\<lambda>(folder, kws). \<exists>kw \<in> set kws. py_in kw (lower f)) DEFAULT_LAYOUT of
          Some (folder, kws) \<Rightarrow> folder
        | None \<Rightarrow> ''checkpoints'')"
proof -
  have first: "choose_folder_by_name f =
       (case find (\<lambda>(folder, kws). \<exists>kw \<in> set kws. py_in kw (lower f)) DEFAULT_LAYOUT of
          Some (folder, kws) \<Rightarrow> folder
        | None \<Rightarrow> ''checkpoints'')"
    by (simp add: choose_folder_by_name_def scan_layout_find split: option.splits)
  have vae: "choose_folder_by_name f = ''vae''"
    if "py_in ''vae'' (lower f)" "\<not> py_in ''ckpt'' (lower f)"
       "\<not> py_in ''safetensors'' (lower f)" "\<not> py_in ''pt'' (lower f)"
    using that by (simp add: choose_folder_by_name_def DEFAULT_LAYOUT_def)
  have none: "choose_folder_by_name f = ''checkpoints''"
    if "\<forall>(folder, kws) \<in> set DEFAULT_LAYOUT. \<forall>kw \<in> set kws. \<not> py_in kw (lower f)"
    using that by (simp add: choose_folder_by_name_def DEFAULT_LAYOUT_def)
  from first vae none show ?thesis by blast
qed

theorem choose_folder_by_name_first_match_witness:
  "py_in ''vae'' (lower ''ae_VAE.bin'') \<and> \<not> py_in ''ckpt'' (lower ''ae_VAE.bin'')
   \<and> \<not> py_in ''safetensors'' (lower ''ae_VAE.bin'') \<and> \<not> py_in ''pt'' (lower ''ae_VAE.bin'')
   \<and> choose_folder_by_name ''ae_VAE.bin'' = ''vae''
   \<and> list_all (\<lambda>(folder, kws). list_all (\<lambda>kw. \<not> py_in kw (lower ''mystery_model_x'')) kws)
        DEFAULT_LAYOUT
   \<and> choose_folder_by_name ''mystery_model_x'' = ''checkpoints''"
proof -
  have a: "py_in ''vae'' (lower ''ae_VAE.bin'') \<and> \<not> py_in ''ckpt'' (lower ''ae_VAE.bin'')
     \<and> \<not> py_in ''safetensors'' (lower ''ae_VAE.bin'') \<and> \<not> py_in ''pt'' (lower ''ae_VAE.bin'')"
    by code_simp
  have b: "list_all (\<lambda>(folder, kws). list_all (\<lambda>kw. \<not> py_in kw (lower ''mystery_model_x'')) kws)
        DEFAULT_LAYOUT"
    by code_simp
  then have b': "\<forall>(folder, kws) \<in> set DEFAULT_LAYOUT.
             \<forall>kw \<in> set kws. \<not> py_in kw (lower ''mystery_model_x'')"
    by (simp add: list_all_iff case_prod_unfold)
  from a b b' choose_folder_by_name_first_match [of "''ae_VAE.bin''"]
    choose_folder_by_name_first_match [of "''mystery_model_x''"]
  show ?thesis by blast
qed

subsection \<open>Atomic download\<close>

text \<open>
  C2. Whatever the URL, the destination and the network do, a run of the download engine
  (the check for an existing destination, then \<open>download_file\<close>) leaves the
  destination path in every file system state it passes through, and at its end, either
  as it was before the run (absent, or the pre-existing file, which is skipped before
  any network request), or holding the whole body of an attempt that completed. The
  destination changes only in the last step, the rename of the temporary file
  \<open><destination>.tmp\<close> that already holds that whole body.
\<close>

theorem fetch_atomic:
  assumes "fetch net url name dest d w = (d', w')"
  shows "(path_exists (fs w) dest \<longrightarrow>
            requests w' = requests w \<and> fs w' = fs w \<and> states_since w w' = [])
     \<and> (\<forall>s \<in> set (states_since w w').
           s (str_path dest) = fs w (str_path dest)
           \<or> (s = fs w' \<and> d' = d + 1
                \<and> (\<exists>body. net (requests w' - 1) url = Completes body
                      \<and> s (str_path dest) = Some (File body))))
     \<and> fs w' = last (fs w # states_since w w')
     \<and> (d' = d \<longrightarrow> fs w' (str_path dest) = fs w (str_path dest))
     \<and> (d' \<noteq> d \<longrightarrow>
           (\<exists>body pre s1. net (requests w' - 1) url = Completes body
              \<and> states_since w w' = pre @ [s1, fs w']
              \<and> s1 (str_path dest @ ''.tmp'') = Some (File body)
              \<and> s1 (str_path dest) = fs w (str_path dest)
              \<and> fs w' = (s1(str_path dest := s1 (str_path dest @ ''.tmp'')))
                           (str_path dest @ ''.tmp'' := None)))"
proof (cases "path_exists (fs w) dest")
  case True
  with assms have "w' = print (AlreadyExists dest) w" "d' = d" by (simp_all add: fetch_def)
  with True show ?thesis by (simp add: states_since_def)
next
  case False
  let ?w0 = "print (Downloading name dest) w"
  obtain ok w1 where dl: "download_file net url dest 3 (3 / 2) ?w0 = (ok, w1)" by force
  then have loop: "download_loop net url (str_path dest @ ''.tmp'') (str_path dest) (3 / 2) [1..3] ?w0 = (ok, w1)"
    by (simp add: download_file_def)
  note st = download_loop_states [OF tmp_neq loop]
  have ss: "states_since w w' = states_since ?w0 w1" "fs w' = fs w1" "requests w' = requests w1"
       "d' = (if ok then d + 1 else d)"
    using assms False dl by (auto simp: fetch_def states_since_def split: bool.splits)
  show ?thesis
  proof (cases ok)
    case True
    from loop True have loopT:
      "download_loop net url (str_path dest @ ''.tmp'') (str_path dest) (3 / 2) [1..3] ?w0 = (True, w1)"
      by simp
    from download_loop_rename [OF tmp_neq loopT] st True ss False
    show ?thesis by auto
  next
    case False
    with st ss \<open>\<not> path_exists (fs w) dest\<close> show ?thesis
      by (auto simp: last_ConsR split: if_splits) 
  qed
qed

theorem fetch_atomic_witness:
  "(path_exists (fs world_with_old_file) a_dest
      \<and> requests (snd (fetch net_reset_then_ok a_url a_name a_dest 0 world_with_old_file)) = 0)
   \<and> (fst (fetch net_reset_then_ok a_url a_name a_dest 0 world_ready) \<noteq> 0
      \<and> states_since world_ready (snd (fetch net_reset_then_ok a_url a_name a_dest 0 world_ready)) \<noteq> []
      \<and> list_all (\<lambda>s. s ''models/checkpoints/a.ckpt'' = None
                      \<or> s ''models/checkpoints/a.ckpt'' = Some (File ''whole''))
          (states_since world_ready
             (snd (fetch net_reset_then_ok a_url a_name a_dest 0 world_ready))))
   \<and> (fst (fetch net_not_found a_url a_name a_dest 0 world_ready) = 0
      \<and> fs (snd (fetch net_not_found a_url a_name a_dest 0 world_ready)) ''models/checkpoints/a.ckpt''
          = None)"
proof -
  let ?A = "fetch net_reset_then_ok a_url a_name a_dest 0 world_with_old_file"
  let ?B = "fetch net_reset_then_ok a_url a_name a_dest 0 world_ready"
  let ?C = "fetch net_not_found a_url a_name a_dest 0 world_ready"
  note sp = a_dest_str
  have a: "path_exists (fs world_with_old_file) a_dest" "requests world_with_old_file = 0"
    by (simp_all add: world_with_old_file_def empty_world_def path_exists_def node_at_def sp)
  have b: "fst ?B \<noteq> 0" "states_since world_ready (snd ?B) \<noteq> []"
      "fs world_ready ''models/checkpoints/a.ckpt'' = None"
      "net_reset_then_ok (requests (snd ?B) - 1) a_url = Completes ''whole''"
    by (simp_all add: fetch_eval world_ready_fields net_reset_then_ok_def states_since_def)
  have c: "fst ?C = 0"
    by (simp add: fetch_eval world_ready_fields net_not_found_def)
  have pa: "?A = (fst ?A, snd ?A)" and pb: "?B = (fst ?B, snd ?B)" and pc: "?C = (fst ?C, snd ?C)"
    by simp_all
  note A = fetch_atomic [OF pa]
  note B = fetch_atomic [OF pb]
  note C = fetch_atomic [OF pc]
  have 1: "requests (snd ?A) = 0" using A a by simp
  have 2: "\<forall>s \<in> set (states_since world_ready (snd ?B)).
            s ''models/checkpoints/a.ckpt'' = None
            \<or> s ''models/checkpoints/a.ckpt'' = Some (File ''whole'')"
    using B b(3,4) unfolding sp by auto
  have 3: "fs (snd ?C) ''models/checkpoints/a.ckpt'' = None"
    using C c b(3) unfolding sp by simp
  from a 1 b 2 c 3 show ?thesis by (simp add: list_all_iff)
qed

subsection \<open>Retry policy\<close>

text \<open>
  C6. When the destination does not exist (\<open>exists\<close> returned \<open>False\<close>),
  \<open>download_file\<close> runs with the defaults:
  at most 3 requests are made; every failed attempt, up to the first success, is logged
  with its number and error and followed by a wait of \<open>1.5 * attempt\<close>. If all three
  attempts fail, the log is the three failures and then the report that the entry
  failed, the waits are 1.5, 3 and 4.5, the counter of downloads stays, no file appears
  at the destination, and the loop of \<open>main\<close> goes on with the next entry.
\<close>

theorem fetch_retry_policy:
  assumes "\<not> path_exists (fs w) dest" and "fetch net url name dest d w = (d', w')"
  shows "requests w' \<le> requests w + 3
     \<and> (let fa = failed_attempts net url (requests w) [1, 2, 3]
        in stdout w' = stdout w @ [Downloading name dest]
               @ map (\<lambda>(a, e). AttemptFailed a e) fa
               @ [if length fa < 3 then Downloaded dest else FailedToDownload url]
           \<and> slept w' = slept w @ map (\<lambda>(a, e). 3 / 2 * of_int a) fa
           \<and> requests w' = requests w + length fa + (if length fa < 3 then 1 else 0))
     \<and> (\<forall>e1 e2 e3.
           failure_of (net (requests w) url) = Some e1
           \<and> failure_of (net (requests w + 1) url) = Some e2
           \<and> failure_of (net (requests w + 2) url) = Some e3
           \<longrightarrow> stdout w' = stdout w @ [Downloading name dest, AttemptFailed 1 e1,
                    AttemptFailed 2 e2, AttemptFailed 3 e3, FailedToDownload url]
               \<and> slept w' = slept w @ [3 / 2, 3, 9 / 2]
               \<and> requests w' = requests w + 3
               \<and> d' = d
               \<and> fs w' (str_path dest) = fs w (str_path dest)
               \<and> \<not> path_exists (fs w') dest)
     \<and> (\<forall>dest_root kvs rest w0.
           entry_url kvs = url \<and> truthy url
           \<and> default_name url (entry_name kvs) = Inr name
           \<and> decide_dest dest_root name (entry_rel_path kvs) w0 = (Inr dest, w)
           \<and> dest_exists w dest = Inr False
           \<longrightarrow> process_entries net dest_root (PDict kvs # rest) d w0
               = process_entries net dest_root rest d' w')"
proof -
  let ?w0 = "print (Downloading name dest) w"
  obtain ok w1 where dl: "download_file net url dest 3 (3 / 2) ?w0 = (ok, w1)" by force
  then have loop: "download_loop net url (str_path dest @ ''.tmp'') (str_path dest) (3 / 2) [1, 2, 3] ?w0 = (ok, w1)"
    by (simp only: download_file_def Let_def upto_1_3)
  have res: "w' = print (if ok then Downloaded dest else FailedToDownload url) w1"
       "d' = (if ok then d + 1 else d)"
    using assms dl by (auto simp: fetch_def split: bool.splits)
  define fa where "fa = failed_attempts net url (requests w) [1, 2, 3]"
  have lg: "stdout w1 = stdout w @ [Downloading name dest] @ map (\<lambda>(a, e). AttemptFailed a e) fa"
      "slept w1 = slept w @ map (\<lambda>(a, e). 3 / 2 * of_int a) fa"
      "ok = (length fa < 3)"
      "requests w1 = requests w + length fa + (if ok then 1 else 0)"
    using download_loop_log [OF loop] unfolding fa_def
    by (simp_all add: numeral_3_eq_3 del: failed_attempts.simps)
  have len: "length fa \<le> 3"
    using failed_attempts_length [of net url "requests w" "[1, 2, 3]"] by (simp add: fa_def del: failed_attempts.simps)
  have A: "requests w' \<le> requests w + 3" using lg res len by auto
  have B: "stdout w' = stdout w @ [Downloading name dest]
               @ map (\<lambda>(a, e). AttemptFailed a e) fa
               @ [if length fa < 3 then Downloaded dest else FailedToDownload url]"
      "slept w' = slept w @ map (\<lambda>(a, e). 3 / 2 * of_int a) fa"
      "requests w' = requests w + length fa + (if length fa < 3 then 1 else 0)"
    using lg res by simp_all
  have C: "stdout w' = stdout w @ [Downloading name dest, AttemptFailed 1 e1,
                    AttemptFailed 2 e2, AttemptFailed 3 e3, FailedToDownload url]
               \<and> slept w' = slept w @ [3 / 2, 3, 9 / 2]
               \<and> requests w' = requests w + 3
               \<and> d' = d
               \<and> fs w' (str_path dest) = fs w (str_path dest)
               \<and> \<not> path_exists (fs w') dest"
    if f: "failure_of (net (requests w) url) = Some e1"
          "failure_of (net (requests w + 1) url) = Some e2"
          "failure_of (net (requests w + 2) url) = Some e3" for e1 e2 e3
  proof -
    have fa: "fa = [(1, e1), (2, e2), (3, e3)]"
      unfolding fa_def using f by (rule failed_attempts_three [of net "requests w" url])
    with lg(3) have nok: "\<not> ok" by simp
    with loop have loopF: "download_loop net url (str_path dest @ ''.tmp'') (str_path dest) (3 / 2) [1, 2, 3] ?w0 = (False, w1)"
      by simp
    have keep: "fs w' (str_path dest) = fs w (str_path dest)"
      using download_loop_tmp [OF tmp_neq loopF] res by simp
    have "\<not> path_exists (fs w') dest"
      using path_exists_cong [of "fs w'" dest "fs w"] keep assms(1) by simp
    with keep B fa nok res show ?thesis by simp
  qed
  have D: "process_entries net dest_root (PDict kvs # rest) d w0 = process_entries net dest_root rest d' w'"
    if "entry_url kvs = url \<and> truthy url \<and> default_name url (entry_name kvs) = Inr name
           \<and> decide_dest dest_root name (entry_rel_path kvs) w0 = (Inr dest, w)
           \<and> dest_exists w dest = Inr False" for dest_root kvs rest w0
    using that assms(2)
    by (intro process_entries_step [where name = name and dest = dest and w = w and found = False])
       auto
  from A B C D show ?thesis unfolding Let_def fa_def by blast
qed

theorem fetch_retry_policy_witness:
  "\<not> path_exists (fs world_ready) a_dest
   \<and> dest_exists world_ready a_dest = Inr False
   \<and> failure_of (net_not_found (requests world_ready) a_url) = Some ''HTTP Error 404''
   \<and> stdout (snd (fetch net_not_found a_url a_name a_dest 0 world_ready))
       = stdout world_ready @ [Downloading a_name a_dest, AttemptFailed 1 ''HTTP Error 404'',
           AttemptFailed 2 ''HTTP Error 404'', AttemptFailed 3 ''HTTP Error 404'',
           FailedToDownload a_url]
   \<and> slept (snd (fetch net_not_found a_url a_name a_dest 0 world_ready)) = [3 / 2, 3, 9 / 2]
   \<and> requests (snd (fetch net_not_found a_url a_name a_dest 0 world_ready)) = 3
   \<and> \<not> path_exists (fs (snd (fetch net_not_found a_url a_name a_dest 0 world_ready))) a_dest
   \<and> process_entries net_not_found ''models'' [PDict url_entry, PDict []] 0 empty_world
       = process_entries net_not_found ''models'' [PDict []] 0
           (snd (fetch net_not_found a_url a_name a_dest 0 world_ready))"
proof -
  let ?F = "fetch net_not_found a_url a_name a_dest 0 world_ready"
  have h: "\<not> path_exists (fs world_ready) a_dest" unfolding world_ready_def by code_simp
  have f: "failure_of (net_not_found (requests world_ready) a_url) = Some ''HTTP Error 404''"
      "failure_of (net_not_found (requests world_ready + 1) a_url) = Some ''HTTP Error 404''"
      "failure_of (net_not_found (requests world_ready + 2) a_url) = Some ''HTTP Error 404''"
    unfolding world_ready_def by code_simp+
  have e: "entry_url url_entry = a_url" "truthy a_url"
      "default_name a_url (entry_name url_entry) = Inr a_name"
      "fst (decide_dest ''models'' a_name (entry_rel_path url_entry) empty_world) = Inr a_dest"
      "entry_rel_path url_entry = PNone"
      "slept world_ready = []" "requests world_ready = 0"
    unfolding world_ready_def by code_simp+
  have dd: "decide_dest ''models'' a_name (entry_rel_path url_entry) empty_world = (Inr a_dest, world_ready)"
    using e(4) unfolding world_ready_def e(5) by (simp add: prod_eq_iff)
  have de: "dest_exists world_ready a_dest = Inr False"
    using h by (simp add: dest_exists_def world_ready_fields)
  have pf: "?F = (fst ?F, snd ?F)" by simp
  note T = fetch_retry_policy [OF h pf]
  from T have T3: "stdout (snd ?F) = stdout world_ready @ [Downloading a_name a_dest,
        AttemptFailed 1 ''HTTP Error 404'', AttemptFailed 2 ''HTTP Error 404'',
        AttemptFailed 3 ''HTTP Error 404'', FailedToDownload a_url]
      \<and> slept (snd ?F) = slept world_ready @ [3 / 2, 3, 9 / 2]
      \<and> requests (snd ?F) = requests world_ready + 3
      \<and> fst ?F = 0
      \<and> fs (snd ?F) (str_path a_dest) = fs world_ready (str_path a_dest)
      \<and> \<not> path_exists (fs (snd ?F)) a_dest"
    using f by simp
  from T have T4: "process_entries net_not_found ''models'' (PDict url_entry # [PDict []]) 0 empty_world
       = process_entries net_not_found ''models'' [PDict []] (fst ?F) (snd ?F)"
    using e(1,2,3) dd de by simp
  from h de f(1) T3 T4 e(6,7) show ?thesis by simp
qed

subsection \<open>The temporary file after a failed download\<close>

text \<open>
  C10, as the claim states it, fails: when every attempt fails before the temporary file
  is opened (here three answers 404), no temporary file is left behind.
\<close>

theorem download_file_tmp_counterexample:
  "failure_of (net_not_found 0 a_url) \<noteq> None
   \<and> failure_of (net_not_found 1 a_url) \<noteq> None
   \<and> failure_of (net_not_found 2 a_url) \<noteq> None
   \<and> requests world_ready = 0
   \<and> \<not> fst (download_file net_not_found a_url a_dest 3 (3 / 2) world_ready)
   \<and> requests (snd (download_file net_not_found a_url a_dest 3 (3 / 2) world_ready)) = 3
   \<and> str_path a_dest @ ''.tmp'' = ''models/checkpoints/a.ckpt.tmp''
   \<and> fs (snd (download_file net_not_found a_url a_dest 3 (3 / 2) world_ready))
        ''models/checkpoints/a.ckpt.tmp'' = None"
  by (simp add: fetch_eval world_ready_fields net_not_found_def)

text \<open>
  C10, amended: when every attempt of \<open>download_file\<close> fails, the destination is as
  before (never created), and nothing removes the temporary file
  \<open><destination>.tmp\<close>: it holds what the last attempt that opened it wrote (the
  partial content when the last attempt broke during the copy), it is still there if it
  was there before, and it is as it was before when no attempt got as far as opening it.
  Nothing else in the file system changes.
\<close>

theorem download_file_failure_leaves_tmp:
  assumes "download_file net url dest retries backoff w = (False, w')"
  shows "fs w' (str_path dest) = fs w (str_path dest)
     \<and> fs w' = (fs w)(str_path dest @ ''.tmp'' :=
                  left_in_tmp (fs w (str_path dest @ ''.tmp''))
                    (map (\<lambda>i. net (requests w + i) url) [0..<nat retries]))
     \<and> (fs w (str_path dest @ ''.tmp'') \<noteq> None \<longrightarrow> fs w' (str_path dest @ ''.tmp'') \<noteq> None)
     \<and> (\<forall>part e. 0 < retries \<and> net (requests w + nat retries - 1) url = CopyRaises part e
           \<longrightarrow> fs w' (str_path dest @ ''.tmp'') = Some (File part))
     \<and> ((\<forall>i < nat retries. \<exists>e. net (requests w + i) url = UrlopenRaises e
                                 \<or> net (requests w + i) url = OpenRaises e)
           \<longrightarrow> fs w' (str_path dest @ ''.tmp'') = fs w (str_path dest @ ''.tmp''))"
proof -
  let ?tmp = "str_path dest @ ''.tmp''"
  let ?outs = "map (\<lambda>i. net (requests w + i) url) [0..<nat retries]"
  from assms have loop:
    "download_loop net url ?tmp (str_path dest) backoff [1..retries] w = (False, w')"
    by (simp only: download_file_def Let_def)
  have B: "fs w' = (fs w)(?tmp := left_in_tmp (fs w ?tmp) ?outs)"
    using download_loop_tmp [OF tmp_neq loop] by (simp only: length_upto_1)
  have A: "fs w' (str_path dest) = fs w (str_path dest)"
    by (subst B) simp
  have T: "fs w' ?tmp = left_in_tmp (fs w ?tmp) ?outs"
    by (subst B) simp
  have "length (failed_attempts net url (requests w) [1..retries]) = length [1..retries]"
    using download_loop_log [OF loop] failed_attempts_length [of net url "requests w" "[1..retries]"]
    by simp
  then have allfail: "\<forall>x \<in> set ?outs. failure_of x \<noteq> None"
    using failed_attempts_all [of net url "requests w" "[1..retries]"]
    by (auto simp: length_upto_1)
  have C: "fs w ?tmp \<noteq> None \<longrightarrow> fs w' ?tmp \<noteq> None"
    using left_in_tmp_kept [OF allfail] T by simp
  have D: "fs w' ?tmp = Some (File part)"
    if "0 < retries \<and> net (requests w + nat retries - 1) url = CopyRaises part e" for part e
  proof -
    from that obtain n where n: "nat retries = Suc n" by (cases "nat retries") auto
    with that have "?outs = map (\<lambda>i. net (requests w + i) url) [0..<n] @ [CopyRaises part e]"
      by simp
    then show ?thesis using T by (simp only: left_in_tmp_last_copy)
  qed
  have E: "fs w' ?tmp = fs w ?tmp"
    if "\<forall>i < nat retries. \<exists>e. net (requests w + i) url = UrlopenRaises e
                                 \<or> net (requests w + i) url = OpenRaises e"
  proof -
    from that have "\<forall>x \<in> set ?outs. \<exists>e. x = UrlopenRaises e \<or> x = OpenRaises e" by auto
    from left_in_tmp_unopened [OF this] T show ?thesis by simp
  qed
  from A B C D E show ?thesis by blast
qed

theorem download_file_failure_leaves_tmp_witness:
  "\<not> fst (download_file net_reset_at_last a_url a_dest 3 (3 / 2) world_with_stale_tmp)
   \<and> fs world_with_stale_tmp (str_path a_dest @ ''.tmp'') = Some (File ''stale'')
   \<and> fs (snd (download_file net_reset_at_last a_url a_dest 3 (3 / 2) world_with_stale_tmp))
        (str_path a_dest @ ''.tmp'') = Some (File ''third'')
   \<and> fs (snd (download_file net_reset_at_last a_url a_dest 3 (3 / 2) world_with_stale_tmp))
        (str_path a_dest) = None
   \<and> \<not> fst (download_file net_not_found a_url a_dest 3 (3 / 2) world_with_stale_tmp)
   \<and> fs (snd (download_file net_not_found a_url a_dest 3 (3 / 2) world_with_stale_tmp))
        (str_path a_dest @ ''.tmp'') = Some (File ''stale'')
   \<and> fs (snd (download_file net_not_found a_url a_dest 3 (3 / 2) world_with_stale_tmp))
        (str_path a_dest @ ''.tmp'') \<noteq> None"
proof -
  let ?R = "download_file net_reset_at_last a_url a_dest 3 (3 / 2) world_with_stale_tmp"
  let ?N = "download_file net_not_found a_url a_dest 3 (3 / 2) world_with_stale_tmp"
  have r: "\<not> fst ?R" "(0::int) < 3"
      "net_reset_at_last (requests world_with_stale_tmp + nat 3 - 1) a_url
         = CopyRaises ''third'' ''Connection reset''"
      "fs world_with_stale_tmp (str_path a_dest) = None"
    by (simp_all add: fetch_eval world_with_stale_tmp_def empty_world_def net_reset_at_last_def)
  have n: "\<not> fst ?N" "fs world_with_stale_tmp (str_path a_dest @ ''.tmp'') = Some (File ''stale'')"
    by (simp_all add: fetch_eval world_with_stale_tmp_def empty_world_def net_not_found_def)
  have n2: "\<forall>i < nat 3. \<exists>e. net_not_found (requests world_with_stale_tmp + i) a_url = UrlopenRaises e
              \<or> net_not_found (requests world_with_stale_tmp + i) a_url = OpenRaises e"
    by (simp add: net_not_found_def)
  have R: "?R = (False, snd ?R)" using r(1) by (simp add: prod_eq_iff)
  have N: "?N = (False, snd ?N)" using n(1) by (simp add: prod_eq_iff)
  note TR = download_file_failure_leaves_tmp [OF R]
  note TN = download_file_failure_leaves_tmp [OF N]
  have 1: "fs (snd ?R) (str_path a_dest @ ''.tmp'') = Some (File ''third'')"
    by (rule TR [THEN conjunct2, THEN conjunct2, THEN conjunct2, THEN conjunct1,
                 rule_format, OF conjI [OF r(2) r(3)]])
  have 2: "fs (snd ?R) (str_path a_dest) = None"
    using TR [THEN conjunct1] r(4) by simp
  have 3: "fs (snd ?N) (str_path a_dest @ ''.tmp'') = Some (File ''stale'')"
    using TN [THEN conjunct2, THEN conjunct2, THEN conjunct2, THEN conjunct2,
              THEN mp, OF n2] n(2) by simp
  have 4: "fs (snd ?N) (str_path a_dest @ ''.tmp'') \<noteq> None"
    using TN [THEN conjunct2, THEN conjunct2, THEN conjunct1] n(2) by simp
  from r(1) n 1 2 3 4 show ?thesis by simp
qed

subsection \<open>Manifest loader\<close>

text \<open>
  C5. A mapping whose key \<open>models\<close> holds a sequence yields exactly that sequence, in
  order; a bare sequence yields itself; a mapping without a sequence under \<open>models\<close>
  yields its values (in the insertion order of the dict).
\<close>

theorem load_entries_dispatch:
  "(map_of kvs ''models'' = Some (PList ms) \<longrightarrow> load_entries (PDict kvs) = Some ms)
   \<and> load_entries (PList xs) = Some xs
   \<and> ((\<forall>ms. map_of kvs ''models'' \<noteq> Some (PList ms))
        \<longrightarrow> load_entries (PDict kvs) = Some (map snd kvs))"
  by (auto simp: load_entries_def split: option.splits pyval.splits)

theorem load_entries_dispatch_witness:
  "map_of [(''version'', PInt 1), (''models'', PList [PDict url_entry, PDict []])] ''models''
     = Some (PList [PDict url_entry, PDict []])
   \<and> load_entries (PDict [(''version'', PInt 1), (''models'', PList [PDict url_entry, PDict []])])
     = Some [PDict url_entry, PDict []]
   \<and> load_entries (PList [PDict [], PDict url_entry]) = Some [PDict [], PDict url_entry]
   \<and> map_of [(''b'', PDict url_entry), (''models'', PStr ''none''), (''a'', PDict [])] ''models''
     = Some (PStr ''none'')
   \<and> load_entries (PDict [(''b'', PDict url_entry), (''models'', PStr ''none''), (''a'', PDict [])])
     = Some [PDict url_entry, PStr ''none'', PDict []]"
proof -
  have a: "map_of [(''version'', PInt 1), (''models'', PList [PDict url_entry, PDict []])] ''models''
     = Some (PList [PDict url_entry, PDict []])" by simp
  have b: "map_of [(''b'', PDict url_entry), (''models'', PStr ''none''), (''a'', PDict [])] ''models''
     = Some (PStr ''none'')" by simp
  then have b': "\<forall>ms. map_of [(''b'', PDict url_entry), (''models'', PStr ''none''), (''a'', PDict [])]
     ''models'' \<noteq> Some (PList ms)" by simp
  from a b
    load_entries_dispatch [of "[(''version'', PInt 1), (''models'', PList [PDict url_entry, PDict []])]"
      "[PDict url_entry, PDict []]" "[PDict [], PDict url_entry]", THEN conjunct1, THEN mp, OF a]
    load_entries_dispatch [of "[]" "[]" "[PDict [], PDict url_entry]", THEN conjunct2, THEN conjunct1]
    load_entries_dispatch [of "[(''b'', PDict url_entry), (''models'', PStr ''none''), (''a'', PDict [])]"
      "[]" "[]", THEN conjunct2, THEN conjunct2, THEN mp, OF b']
  show ?thesis by simp
qed

subsection \<open>Unrecognized manifest shape\<close>

text \<open>
  C8. When the parsed manifest is neither a mapping nor a sequence, \<open>main\<close> prints the
  complaint and leaves with status 1; no request is made and the file system is not
  touched.
\<close>

theorem main_unrecognized:
  assumes "3 \<le> length argv" and "read_json (argv ! 1) = Inr data"
    and "\<forall>kvs. data \<noteq> PDict kvs" and "\<forall>xs. data \<noteq> PList xs"
  shows "main argv read_json net w = (Exit 1, print Unrecognized w)
     \<and> exit_status (fst (main argv read_json net w)) = 1
     \<and> stdout (snd (main argv read_json net w)) = stdout w @ [Unrecognized]
     \<and> requests (snd (main argv read_json net w)) = requests w
     \<and> fs (snd (main argv read_json net w)) = fs w
     \<and> states_since w (snd (main argv read_json net w)) = []"
proof -
  from assms(3,4) have "load_entries data = None"
    by (cases data) (auto simp: load_entries_def)
  with assms(1,2) have "main argv read_json net w = (Exit 1, print Unrecognized w)"
    by (simp add: main_def)
  then show ?thesis by (simp add: states_since_def)
qed

theorem main_unrecognized_witness:
  "3 \<le> length argv_models
   \<and> exit_status (fst (main argv_models (\<lambda>p. Inr (PStr ''models'')) net_reset_then_ok empty_world)) = 1
   \<and> requests (snd (main argv_models (\<lambda>p. Inr (PStr ''models'')) net_reset_then_ok empty_world)) = 0
   \<and> exit_status (fst (main argv_models (\<lambda>p. Inr PNone) net_reset_then_ok empty_world)) = 1
   \<and> requests (snd (main argv_models (\<lambda>p. Inr PNone) net_reset_then_ok empty_world)) = 0"
proof -
  have a: "3 \<le> length argv_models" by (simp add: argv_models_def)
  have r: "requests empty_world = 0" by (simp add: empty_world_def)
  from main_unrecognized [OF a, of "\<lambda>p. Inr (PStr ''models'')" "PStr ''models''" net_reset_then_ok empty_world]
    main_unrecognized [OF a, of "\<lambda>p. Inr PNone" PNone net_reset_then_ok empty_world] a r
  show ?thesis by simp
qed

subsection \<open>URL resolution\<close>

text \<open>
  C7, as the claim states it, fails: with \<open>{"download_url": "", "url": "http://h/a.ckpt"}\<close>
  the first field that is present with a value other than \<open>None\<close> is \<open>download_url\<close>,
  the empty string, and the code takes \<open>url\<close>.
\<close>

theorem entry_url_presence_counterexample:
  "spec_first_present empty_then_url url_fields = Some (PStr [])
   \<and> entry_url empty_then_url = PStr ''http://h/a.ckpt''"
  by (simp add: empty_then_url_def url_fields_def entry_url_def dict_get_def py_or_def)

text \<open>
  C7, amended: the URL is the first truthy value (not \<open>None\<close>, \<open>false\<close>, zero, nor an
  empty string, list or mapping) among the fields \<open>download_url\<close>, \<open>url\<close>,
  \<open>file_url\<close>, \<open>location\<close>, in that order. When no field holds a truthy value, and so
  when none of the fields is present, the entry is skipped with the logged diagnostic,
  nothing is raised, and the loop goes on with the next entry.
\<close>

theorem entry_url_first_truthy:
  "entry_url kvs = (case find truthy (map (dict_get kvs) url_fields) of
                      Some v \<Rightarrow> v | None \<Rightarrow> dict_get kvs ''location'')
   \<and> (truthy (entry_url kvs) \<longleftrightarrow> (\<exists>k \<in> set url_fields. truthy (dict_get kvs k)))
   \<and> ((\<forall>k \<in> set url_fields. map_of kvs k = None)
        \<longrightarrow> (\<forall>k \<in> set url_fields. \<not> truthy (dict_get kvs k)))
   \<and> ((\<forall>k \<in> set url_fields. \<not> truthy (dict_get kvs k))
        \<longrightarrow> process_entry net dest_root (PDict kvs) d w
              = (Inr d, print (SkippingNoUrl (PDict kvs)) w)
          \<and> process_entries net dest_root (PDict kvs # rest) d w
              = process_entries net dest_root rest d (print (SkippingNoUrl (PDict kvs)) w))"
proof -
  have skip: "process_entry net dest_root (PDict kvs) d w
              = (Inr d, print (SkippingNoUrl (PDict kvs)) w)
          \<and> process_entries net dest_root (PDict kvs # rest) d w
              = process_entries net dest_root rest d (print (SkippingNoUrl (PDict kvs)) w)"
    if "\<forall>k \<in> set url_fields. \<not> truthy (dict_get kvs k)"
  proof -
    from that have "\<not> truthy (entry_url kvs)" by (simp add: entry_url_truthy)
    then show ?thesis by (simp add: process_entry_def)
  qed
  have absent: "\<forall>k \<in> set url_fields. \<not> truthy (dict_get kvs k)"
    if "\<forall>k \<in> set url_fields. map_of kvs k = None"
    using that by (simp add: dict_get_def)
  from entry_url_find entry_url_truthy skip absent show ?thesis by blast
qed

theorem entry_url_first_truthy_witness:
  "list_all (\<lambda>k. map_of no_url_entry k = None) url_fields
   \<and> process_entry net_not_found ''models'' (PDict no_url_entry) 0 empty_world
       = (Inr 0, print (SkippingNoUrl (PDict no_url_entry)) empty_world)
   \<and> process_entries net_not_found ''models'' [PDict no_url_entry, PDict url_entry] 0 empty_world
       = process_entries net_not_found ''models'' [PDict url_entry] 0
           (print (SkippingNoUrl (PDict no_url_entry)) empty_world)
   \<and> truthy (entry_url empty_then_url)
   \<and> entry_url empty_then_url = PStr ''http://h/a.ckpt''"
proof -
  have a: "list_all (\<lambda>k. map_of no_url_entry k = None) url_fields"
    by (simp add: no_url_entry_def url_fields_def)
  then have a': "\<forall>k \<in> set url_fields. map_of no_url_entry k = None"
    by (simp add: list_all_iff)
  note T = entry_url_first_truthy [of no_url_entry net_not_found "''models''" 0 empty_world
      "[PDict url_entry]"]
  from T a' have b: "\<forall>k \<in> set url_fields. \<not> truthy (dict_get no_url_entry k)" by blast
  note U = entry_url_first_truthy [of empty_then_url net_not_found "''models''" 0 empty_world "[]"]
  have c: "\<exists>k \<in> set url_fields. truthy (dict_get empty_then_url k)"
    by (simp add: url_fields_def empty_then_url_def dict_get_def)
  have d: "find truthy (map (dict_get empty_then_url) url_fields) = Some (PStr ''http://h/a.ckpt'')"
    by (simp add: url_fields_def empty_then_url_def dict_get_def)
  from T b have 1: "process_entry net_not_found ''models'' (PDict no_url_entry) 0 empty_world
       = (Inr 0, print (SkippingNoUrl (PDict no_url_entry)) empty_world)"
    and 2: "process_entries net_not_found ''models'' [PDict no_url_entry, PDict url_entry] 0 empty_world
       = process_entries net_not_found ''models'' [PDict url_entry] 0
           (print (SkippingNoUrl (PDict no_url_entry)) empty_world)" by blast+
  from U c have 3: "truthy (entry_url empty_then_url)" by blast
  from U d have 4: "entry_url empty_then_url = PStr ''http://h/a.ckpt''" by simp
  from a 1 2 3 4 show ?thesis by blast
qed

subsection \<open>Propagation policy\<close>




subsection \<open>Explicit path precedence\<close>




subsection \<open>Skipping what is already there\<close>




end
